theory Spec2Isabelle
  imports Complex_Main
begin

section \<open>Python values, errors and the file system\<close>

text \<open>
  The script \<^verbatim>\<open>models/LF_trainingv2.py\<close> is embedded function by function. An
  exception is a value \<open>Inl e\<close> of the result type \<open>error + 'a\<close>. Functions that
  touch the disk or print take the state of the world and return the new one.
\<close>

datatype error =
    FileNotFoundError
  | IsADirectoryError
  | KeyError string
  | IndexError
  | TypeError
  | AttributeError
  | ValueError
  | UndefinedMetric
  | LibraryError string

type_synonym path = string
type_synonym bytes = "nat list"

text \<open>
  A path names nothing, a regular file with its contents, or a directory with the size
  that \<^verbatim>\<open>stat\<close> reports for it. Paths are compared as the strings the script passes;
  permissions, missing parent directories and a full disk are outside the model.
\<close>

datatype node = File bytes | Dir nat

text \<open>
  What the tokenization loop does besides computing: a call of the tokenizer, the
  progress line it prints, \<^verbatim>\<open>torch.cuda.empty_cache()\<close> and \<^verbatim>\<open>gc.collect()\<close>.
\<close>

datatype event = Tokenize string nat | Progress nat nat | CudaEmptyCache | GcCollect

record world =
  files :: "path \<rightharpoonup> node"
  trace :: "event list"

definition os_path_exists :: "world \<Rightarrow> path \<Rightarrow> bool" where
  "os_path_exists w p = (files w p \<noteq> None)"

definition os_path_getsize :: "world \<Rightarrow> path \<Rightarrow> error + nat" where
  "os_path_getsize w p =
     (case files w p of
        None \<Rightarrow> Inl FileNotFoundError
      | Some (File b) \<Rightarrow> Inr (length b)
      | Some (Dir n) \<Rightarrow> Inr n)"

text \<open>\<^verbatim>\<open>open(p, "rb")\<close> followed by reading the whole file.\<close>

definition read_rb :: "world \<Rightarrow> path \<Rightarrow> error + bytes" where
  "read_rb w p =
     (case files w p of
        None \<Rightarrow> Inl FileNotFoundError
      | Some (Dir n) \<Rightarrow> Inl IsADirectoryError
      | Some (File b) \<Rightarrow> Inr b)"

text \<open>\<^verbatim>\<open>open(p, "wb")\<close> followed by writing \<open>b\<close>: the file is created or replaced.\<close>

definition write_wb :: "world \<Rightarrow> path \<Rightarrow> bytes \<Rightarrow> error + world" where
  "write_wb w p b =
     (case files w p of
        Some (Dir n) \<Rightarrow> Inl IsADirectoryError
      | _ \<Rightarrow> Inr (w\<lparr>files := (files w)(p \<mapsto> File b)\<rparr>))"

definition os_remove :: "world \<Rightarrow> path \<Rightarrow> error + world" where
  "os_remove w p =
     (case files w p of
        None \<Rightarrow> Inl FileNotFoundError
      | Some (Dir n) \<Rightarrow> Inl IsADirectoryError
      | Some (File b) \<Rightarrow> Inr (w\<lparr>files := (files w)(p := None)\<rparr>))"

text \<open>\<^verbatim>\<open>os.path.join(a, b)\<close> of \<^verbatim>\<open>posixpath\<close>, for two components.\<close>

definition os_path_join :: "path \<Rightarrow> path \<Rightarrow> path" where
  "os_path_join a b =
     (if b \<noteq> [] \<and> hd b = CHR ''/'' then b
      else if a = [] \<or> last a = CHR ''/'' then a @ b
      else a @ ''/'' @ b)"

text \<open>A Python dictionary with string keys, in insertion order.\<close>

type_synonym 'v dict = "(string \<times> 'v) list"

definition dict_getitem :: "'v dict \<Rightarrow> string \<Rightarrow> error + 'v" where
  "dict_getitem d k = (case map_of d k of None \<Rightarrow> Inl (KeyError k) | Some v \<Rightarrow> Inr v)"

text \<open>\<^verbatim>\<open>xs[i]\<close>: a negative index counts from the end, out of range raises.\<close>

definition list_getitem :: "'a list \<Rightarrow> int \<Rightarrow> error + 'a" where
  "list_getitem xs i =
     (if 0 \<le> i \<and> i < int (length xs) then Inr (xs ! nat i)
      else if i < 0 \<and> - int (length xs) \<le> i then Inr (xs ! nat (int (length xs) + i))
      else Inl IndexError)"

section \<open>Tokenization cache\<close>

text \<open>
  The tokenizer and \<^verbatim>\<open>pickle\<close> are libraries: they are parameters. A tokenizer maps
  a text and \<^verbatim>\<open>max_length\<close> to an encoding or raises; the script always calls it with
  \<^verbatim>\<open>truncation=True, padding='max_length'\<close>.
\<close>

record BatchEncoding =
  input_ids :: "int list"
  attention_mask :: "int list"

type_synonym tokenizer = "string \<Rightarrow> nat \<Rightarrow> error + BatchEncoding"

type_synonym encodings = "int list list dict"

definition max_length :: nat where
  "max_length = 1024"

text \<open>
  The body of \<^verbatim>\<open>for i, text in enumerate(texts)\<close>: \<open>n\<close> is \<^verbatim>\<open>len(texts)\<close>, \<open>i\<close> the
  running index, \<open>ids\<close> and \<open>masks\<close> the two accumulators. An exception of the tokenizer
  leaves the loop at once.
\<close>

fun tokenize_loop ::
  "tokenizer \<Rightarrow> nat \<Rightarrow> nat \<Rightarrow> nat \<Rightarrow> string list \<Rightarrow> int list list \<Rightarrow> int list list \<Rightarrow>
   event list \<Rightarrow> (error + int list list \<times> int list list) \<times> event list" where
  "tokenize_loop tok ml n i [] ids masks tr = (Inr (ids, masks), tr)"
| "tokenize_loop tok ml n i (text # rest) ids masks tr =
     (case tok text ml of
        Inl e \<Rightarrow> (Inl e, tr @ [Tokenize text ml])
      | Inr encoding \<Rightarrow>
          tokenize_loop tok ml n (Suc i) rest
            (ids @ [input_ids encoding]) (masks @ [attention_mask encoding])
            (tr @ [Tokenize text ml] @
               (if i mod 500 = 0 then [Progress i n, CudaEmptyCache, GcCollect] else [])))"

text \<open>Lines 34-35: \<^verbatim>\<open>with open(cache_path, "rb") as f: return pickle.load(f)\<close>.\<close>

definition load_cache ::
  "(bytes \<Rightarrow> error + encodings) \<Rightarrow> path \<Rightarrow> world \<Rightarrow> (error + encodings) \<times> world" where
  "load_cache pickle_load cache_path w =
     (case read_rb w cache_path of
        Inl e \<Rightarrow> (Inl e, w)
      | Inr b \<Rightarrow> (pickle_load b, w))"

text \<open>Lines 37-56: the loop, then the dictionary is built, written and returned.\<close>

definition tokenize_and_store ::
  "(encodings \<Rightarrow> bytes) \<Rightarrow> string list \<Rightarrow> tokenizer \<Rightarrow> nat \<Rightarrow> path \<Rightarrow> world \<Rightarrow>
   (error + encodings) \<times> world" where
  "tokenize_and_store pickle_dump texts tok ml cache_path w =
     (case tokenize_loop tok ml (length texts) 0 texts [] [] (trace w) of
        (Inl e, tr) \<Rightarrow> (Inl e, w\<lparr>trace := tr\<rparr>)
      | (Inr (ids, masks), tr) \<Rightarrow>
          (let encodings = [(''input_ids'', ids), (''attention_mask'', masks)]
           in case write_wb (w\<lparr>trace := tr\<rparr>) cache_path (pickle_dump encodings) of
                Inl e \<Rightarrow> (Inl e, w\<lparr>trace := tr\<rparr>)
              | Inr w' \<Rightarrow> (Inr encodings, w')))"

text \<open>
  Line 33 is \<^verbatim>\<open>os.path.exists(cache_path) and os.path.getsize(cache_path) > 0\<close>: the size
  is asked for only when the path exists.
\<close>

definition tokenize_with_cache ::
  "(encodings \<Rightarrow> bytes) \<Rightarrow> (bytes \<Rightarrow> error + encodings) \<Rightarrow>
   string list \<Rightarrow> tokenizer \<Rightarrow> nat \<Rightarrow> path \<Rightarrow> world \<Rightarrow> (error + encodings) \<times> world" where
  "tokenize_with_cache pickle_dump pickle_load texts tok ml cache_path w =
     (if os_path_exists w cache_path
      then (case os_path_getsize w cache_path of
              Inl e \<Rightarrow> (Inl e, w)
            | Inr sz \<Rightarrow>
                if 0 < sz then load_cache pickle_load cache_path w
                else tokenize_and_store pickle_dump texts tok ml cache_path w)
      else tokenize_and_store pickle_dump texts tok ml cache_path w)"

text \<open>The cache path exists and is not empty: the condition of line 33 as a predicate.\<close>

definition cache_present :: "world \<Rightarrow> path \<Rightarrow> bool" where
  "cache_present w p =
     (os_path_exists w p \<and> (case os_path_getsize w p of Inl e \<Rightarrow> False | Inr sz \<Rightarrow> 0 < sz))"

text \<open>A small tokenizer and a small serialisation format, to run the definitions on.\<close>

definition toy_tokenizer :: tokenizer where
  "toy_tokenizer text ml =
     (let toks = take ml (map (\<lambda>c. int (of_char c)) text)
      in Inr \<lparr>input_ids = toks @ replicate (ml - length toks) 1,
              attention_mask = replicate (length toks) 1 @ replicate (ml - length toks) 0\<rparr>)"

definition failing_tokenizer :: tokenizer where
  "failing_tokenizer text ml =
     (if text = [] then Inl (LibraryError ''empty text'') else toy_tokenizer text ml)"

text \<open>
  The serialisation: a header byte, then every list as its length followed by its
  elements; an integer is stored as a natural number, odd when negative.
\<close>

definition dump_int :: "int \<Rightarrow> nat" where
  "dump_int i = (if i < 0 then 2 * nat (- i) - 1 else 2 * nat i)"

definition parse_int :: "nat \<Rightarrow> int" where
  "parse_int n = (if odd n then - int (Suc n div 2) else int (n div 2))"

definition dump_ints :: "int list \<Rightarrow> bytes" where
  "dump_ints xs = length xs # map dump_int xs"

definition dump_rows :: "int list list \<Rightarrow> bytes" where
  "dump_rows rows = length rows # concat (map dump_ints rows)"

definition dump_str :: "string \<Rightarrow> bytes" where
  "dump_str s = length s # map of_char s"

definition toy_dump :: "encodings \<Rightarrow> bytes" where
  "toy_dump d = 128 # length d # concat (map (\<lambda>(k, v). dump_str k @ dump_rows v) d)"

fun parse_n :: "(bytes \<Rightarrow> ('a \<times> bytes) option) \<Rightarrow> nat \<Rightarrow> bytes \<Rightarrow> ('a list \<times> bytes) option" where
  "parse_n p 0 bs = Some ([], bs)"
| "parse_n p (Suc n) bs =
     (case p bs of
        None \<Rightarrow> None
      | Some (x, r) \<Rightarrow>
          (case parse_n p n r of None \<Rightarrow> None | Some (xs, r') \<Rightarrow> Some (x # xs, r')))"

definition parse_ints :: "bytes \<Rightarrow> (int list \<times> bytes) option" where
  "parse_ints bs =
     (case bs of
        [] \<Rightarrow> None
      | n # r \<Rightarrow> if length r < n then None else Some (map parse_int (take n r), drop n r))"

definition parse_rows :: "bytes \<Rightarrow> (int list list \<times> bytes) option" where
  "parse_rows bs = (case bs of [] \<Rightarrow> None | n # r \<Rightarrow> parse_n parse_ints n r)"

definition parse_str :: "bytes \<Rightarrow> (string \<times> bytes) option" where
  "parse_str bs =
     (case bs of
        [] \<Rightarrow> None
      | n # r \<Rightarrow> if length r < n then None else Some (map char_of (take n r), drop n r))"

definition parse_entry :: "bytes \<Rightarrow> ((string \<times> int list list) \<times> bytes) option" where
  "parse_entry bs =
     (case parse_str bs of
        None \<Rightarrow> None
      | Some (k, r) \<Rightarrow>
          (case parse_rows r of None \<Rightarrow> None | Some (v, r') \<Rightarrow> Some ((k, v), r')))"

definition toy_load :: "bytes \<Rightarrow> error + encodings" where
  "toy_load bs =
     (case bs of
        h # n # r \<Rightarrow>
          if h = 128
          then (case parse_n parse_entry n r of
                  Some (d, []) \<Rightarrow> Inr d
                | _ \<Rightarrow> Inl (LibraryError ''UnpicklingError''))
          else Inl (LibraryError ''UnpicklingError'')
      | _ \<Rightarrow> Inl (LibraryError ''UnpicklingError''))"

text \<open>Concrete worlds and inputs.\<close>

definition example_texts :: "string list" where
  "example_texts = [''ab'', ''cdefg'']"

definition example_encodings :: encodings where
  "example_encodings =
     [(''input_ids'', [[97, 98, 1, 1], [99, 100, 101, 102]]),
      (''attention_mask'', [[1, 1, 0, 0], [1, 1, 1, 1]])]"

definition empty_world :: world where
  "empty_world = \<lparr>files = Map.empty, trace = []\<rparr>"

definition cached_world :: world where
  "cached_world = \<lparr>files = [''cache.pkl'' \<mapsto> File (toy_dump example_encodings)], trace = []\<rparr>"

definition stale_world :: world where
  "stale_world =
     \<lparr>files = [''cache.pkl'' \<mapsto> File (toy_dump example_encodings), ''other.txt'' \<mapsto> File [1]],
      trace = [GcCollect]\<rparr>"

definition bad_texts :: "string list" where
  "bad_texts = [''ab'', []]"

section \<open>Dataset adapter\<close>

text \<open>
  \<^verbatim>\<open>class NewsDataset(Dataset)\<close>: the two fields set by \<^verbatim>\<open>__init__\<close>. An item is the
  dictionary \<^verbatim>\<open>__getitem__\<close> returns; \<^verbatim>\<open>torch.tensor\<close> keeps the data it is given, so a
  tensor is modelled by its data. Labels are Python integers.
\<close>

record NewsDataset =
  encodings :: encodings
  labels :: "int list"

record item =
  item_input_ids :: "int list"
  item_attention_mask :: "int list"
  item_labels :: int

definition NewsDataset_init :: "encodings \<Rightarrow> int list \<Rightarrow> NewsDataset" where
  "NewsDataset_init enc ls = \<lparr>encodings = enc, labels = ls\<rparr>"

definition NewsDataset_len :: "NewsDataset \<Rightarrow> nat" where
  "NewsDataset_len self = length (labels self)"

text \<open>
  The three entries are evaluated in the order they are written: the first lookup or
  index that fails raises.
\<close>

definition NewsDataset_getitem :: "NewsDataset \<Rightarrow> int \<Rightarrow> error + item" where
  "NewsDataset_getitem self idx =
     (case dict_getitem (encodings self) ''input_ids'' of
        Inl e \<Rightarrow> Inl e
      | Inr all_ids \<Rightarrow>
     (case list_getitem all_ids idx of
        Inl e \<Rightarrow> Inl e
      | Inr ids \<Rightarrow>
     (case dict_getitem (encodings self) ''attention_mask'' of
        Inl e \<Rightarrow> Inl e
      | Inr all_masks \<Rightarrow>
     (case list_getitem all_masks idx of
        Inl e \<Rightarrow> Inl e
      | Inr am \<Rightarrow>
     (case list_getitem (labels self) idx of
        Inl e \<Rightarrow> Inl e
      | Inr l \<Rightarrow>
          Inr \<lparr>item_input_ids = ids, item_attention_mask = am, item_labels = l + 1\<rparr>)))))"

section \<open>Metrics\<close>

text \<open>
  \<^verbatim>\<open>compute_metrics\<close> is defined twice in the script, with the same body. Its argument
  carries the logits, one row per example, and the label ids. Logits are modelled as
  real numbers: only their order is used.
\<close>

record EvalPrediction =
  predictions :: "real list list"
  label_ids :: "int list"

text \<open>
  Modelled from the spec: \<^verbatim>\<open>np.argmax(..., axis=1)\<close> is NumPy's and not part of the
  script; it is the arg-max class per example, the first index of the largest entry of
  each row, and raises \<^verbatim>\<open>ValueError\<close> on a row without entries.
\<close>

fun argmax_from :: "real \<Rightarrow> nat \<Rightarrow> nat \<Rightarrow> real list \<Rightarrow> nat" where
  "argmax_from best k i [] = k"
| "argmax_from best k i (x # xs) =
     (if best < x then argmax_from x i (Suc i) xs else argmax_from best k (Suc i) xs)"

definition argmax_row :: "real list \<Rightarrow> error + nat" where
  "argmax_row row = (case row of [] \<Rightarrow> Inl ValueError | x # xs \<Rightarrow> Inr (argmax_from x 0 1 xs))"

fun np_argmax_axis1 :: "real list list \<Rightarrow> error + int list" where
  "np_argmax_axis1 [] = Inr []"
| "np_argmax_axis1 (row # rows) =
     (case argmax_row row of
        Inl e \<Rightarrow> Inl e
      | Inr k \<Rightarrow>
          (case np_argmax_axis1 rows of Inl e \<Rightarrow> Inl e | Inr ks \<Rightarrow> Inr (int k # ks)))"

text \<open>
  Modelled from the spec: \<^verbatim>\<open>accuracy_score\<close> is scikit-learn's and not part of the
  script; it is the accuracy, the fraction of positions where the two vectors agree.
  Vectors of different lengths raise \<^verbatim>\<open>ValueError\<close>; on empty vectors no score is
  defined.
\<close>

definition accuracy_score :: "int list \<Rightarrow> int list \<Rightarrow> error + real" where
  "accuracy_score y_true y_pred =
     (if length y_true \<noteq> length y_pred then Inl ValueError
      else if y_true = [] then Inl UndefinedMetric
      else Inr (real (length (filter (\<lambda>(t, p). t = p) (zip y_true y_pred))) /
                real (length y_true)))"

text \<open>
  Modelled from the spec: \<^verbatim>\<open>f1_score(..., average='macro')\<close> is scikit-learn's and not
  part of the script; it is the macro-averaged F1, the unweighted mean of the per-class
  \<open>2 * precision * recall / (precision + recall)\<close>, a ratio with denominator zero
  counting as zero. As scikit-learn documents for a call without \<^verbatim>\<open>labels\<close>, the classes
  averaged over are the labels that occur in either vector.
\<close>

definition ratio :: "nat \<Rightarrow> nat \<Rightarrow> real" where
  "ratio a b = (if b = 0 then 0 else real a / real b)"

definition f1_of_label :: "int list \<Rightarrow> int list \<Rightarrow> int \<Rightarrow> real" where
  "f1_of_label y_true y_pred l =
     (let tp = length (filter (\<lambda>(t, p). t = l \<and> p = l) (zip y_true y_pred));
          precision = ratio tp (count_list y_pred l);
          recall = ratio tp (count_list y_true l)
      in if precision + recall = 0 then 0 else 2 * precision * recall / (precision + recall))"

definition f1_score_macro :: "int list \<Rightarrow> int list \<Rightarrow> error + real" where
  "f1_score_macro y_true y_pred =
     (if length y_true \<noteq> length y_pred then Inl ValueError
      else if y_true = [] then Inl UndefinedMetric
      else (let present = sort (remdups (y_true @ y_pred))
            in Inr (sum_list (map (f1_of_label y_true y_pred) present) /
                    real (length present))))"

text \<open>The first two lines of \<^verbatim>\<open>compute_metrics\<close>: both vectors are shifted back by one.\<close>

definition metrics_labels :: "EvalPrediction \<Rightarrow> int list" where
  "metrics_labels pred = map (\<lambda>l. l - 1) (label_ids pred)"

definition metrics_preds :: "EvalPrediction \<Rightarrow> error + int list" where
  "metrics_preds pred =
     (case np_argmax_axis1 (predictions pred) of
        Inl e \<Rightarrow> Inl e
      | Inr ks \<Rightarrow> Inr (map (\<lambda>k. k - 1) ks))"

definition compute_metrics :: "EvalPrediction \<Rightarrow> error + real dict" where
  "compute_metrics pred =
     (let labels = metrics_labels pred
      in case metrics_preds pred of
           Inl e \<Rightarrow> Inl e
         | Inr preds \<Rightarrow>
             (case accuracy_score labels preds of
                Inl e \<Rightarrow> Inl e
              | Inr acc \<Rightarrow>
                  (case f1_score_macro labels preds of
                     Inl e \<Rightarrow> Inl e
                   | Inr f1 \<Rightarrow> Inr [(''accuracy'', acc), (''f1'', f1)])))"

text \<open>Concrete datasets and predictions.\<close>

definition example_dataset :: NewsDataset where
  "example_dataset = NewsDataset_init example_encodings [0, 1]"

definition stale_dataset :: NewsDataset where
  "stale_dataset = NewsDataset_init example_encodings [0, 1, -1]"

definition example_pred :: EvalPrediction where
  "example_pred =
     \<lparr>predictions = [[0.1, 2.5, -1], [3, 3, 0], [-2, -1, -0.5], [0, 4, 1]],
      label_ids = [1, 0, 2, 1]\<rparr>"


section \<open>Class weights\<close>

text \<open>
  Modelled from the spec: \<^verbatim>\<open>compute_class_weight(class_weight='balanced', ...)\<close> is
  scikit-learn's and not part of the script; the weight of a class is
  \<^verbatim>\<open>total_samples / (num_classes * count_of_class)\<close>, where \<^verbatim>\<open>num_classes\<close> is the number
  of distinct labels in \<open>y\<close>, and the weights come in the order of \<open>classes\<close>. As in
  scikit-learn, a label of \<open>y\<close> outside \<open>classes\<close>, or a class that does not occur in
  \<open>y\<close>, raises \<^verbatim>\<open>ValueError\<close>. Floating-point numbers are modelled as real numbers.
\<close>

definition compute_class_weight_balanced :: "int list \<Rightarrow> int list \<Rightarrow> error + real list" where
  "compute_class_weight_balanced classes y =
     (let present = sort (remdups y)
      in if \<not> list_all (\<lambda>l. l \<in> set classes) y then Inl ValueError
         else if \<not> list_all (\<lambda>k. k \<in> set present) classes then Inl ValueError
         else Inr (map (\<lambda>k. real (length y) /
                           (real (length present) * real (count_list y k))) classes))"

text \<open>Line 81: the classes are \<^verbatim>\<open>np.array([-1, 0, 1])\<close>, the labels \<^verbatim>\<open>train_labels\<close>.\<close>

definition class_weights :: "int list \<Rightarrow> error + real list" where
  "class_weights train_labels = compute_class_weight_balanced [-1, 0, 1] train_labels"

text \<open>
  A tensor is its data and the device it lives on. \<^verbatim>\<open>torch.tensor\<close> creates it on the
  CPU; \<^verbatim>\<open>.to(device)\<close> gives the same data on the device asked for.
\<close>

datatype device = CPU | CUDA

datatype tensor_data =
    IntVector "int list"
  | IntMatrix "int list list"
  | RealVector "real list"
  | RealMatrix "real list list"

record tensor =
  data :: tensor_data
  device :: device

definition torch_tensor :: "tensor_data \<Rightarrow> tensor" where
  "torch_tensor d = \<lparr>data = d, device = CPU\<rparr>"

definition to :: "tensor \<Rightarrow> device \<Rightarrow> tensor" where
  "to t d = t\<lparr>device := d\<rparr>"

text \<open>
  Lines 77-82 of the script: the two datasets and the tensor of class weights, from the
  two encodings and the two label lists of the split.
\<close>

record prepared =
  train_dataset :: NewsDataset
  val_dataset :: NewsDataset
  class_weights_tensor :: tensor

definition prepare ::
  "encodings \<Rightarrow> encodings \<Rightarrow> int list \<Rightarrow> int list \<Rightarrow> error + prepared" where
  "prepare train_encodings val_encodings train_labels val_labels =
     (let train_ds = NewsDataset_init train_encodings train_labels;
          val_ds = NewsDataset_init val_encodings val_labels
      in case class_weights train_labels of
           Inl e \<Rightarrow> Inl e
         | Inr ws \<Rightarrow>
             Inr \<lparr>train_dataset = train_ds, val_dataset = val_ds,
                  class_weights_tensor = torch_tensor (RealVector ws)\<rparr>)"

section \<open>Weighted trainer\<close>

text \<open>
  \<^verbatim>\<open>WeightedTrainer\<close> adds one field to the trainer, \<^verbatim>\<open>None\<close> by default. A model is the
  device it is on and its forward pass, which may raise; a batch and the outputs of the
  model are dictionaries of tensors. \<^verbatim>\<open>torch.nn.CrossEntropyLoss\<close> is a parameter: given the
  weight tensor, the logits and the labels (either may be \<^verbatim>\<open>None\<close>, as \<^verbatim>\<open>.get\<close> returns
  it for a missing key) it returns the loss or raises.
\<close>

record WeightedTrainer =
  trainer_class_weights :: "tensor option"

record model =
  model_device :: device
  forward :: "tensor dict \<Rightarrow> error + tensor dict"

type_synonym 'l loss_function = "tensor \<Rightarrow> tensor option \<Rightarrow> tensor option \<Rightarrow> error + 'l"

datatype 'l loss_result = Loss 'l | LossAndOutputs 'l "tensor dict"

definition compute_loss ::
  "'l loss_function \<Rightarrow> WeightedTrainer \<Rightarrow> model \<Rightarrow> tensor dict \<Rightarrow> bool \<Rightarrow>
   error + 'l loss_result" where
  "compute_loss CrossEntropyLoss self m inputs return_outputs =
     (let labels = map_of inputs ''labels''
      in case forward m inputs of
           Inl e \<Rightarrow> Inl e
         | Inr outputs \<Rightarrow>
             (let logits = map_of outputs ''logits''
              in case trainer_class_weights self of
                   None \<Rightarrow> Inl AttributeError
                 | Some w \<Rightarrow>
                     (case CrossEntropyLoss (to w (model_device m)) logits labels of
                        Inl e \<Rightarrow> Inl e
                      | Inr loss \<Rightarrow>
                          Inr (if return_outputs then LossAndOutputs loss outputs
                               else Loss loss))))"

section \<open>Checkpoint loader\<close>

text \<open>
  \<^verbatim>\<open>LongformerForSequenceClassification.from_pretrained\<close> is a parameter: from the world,
  a path or model name and the optional \<^verbatim>\<open>num_labels\<close> it returns a model or raises, and
  it may write to the disk (a download). Lines 109-115 of the script follow; the
  condition \<^verbatim>\<open>checkpoint_path and ...\<close> fails for \<^verbatim>\<open>None\<close> and for the empty string.
\<close>

type_synonym 'm from_pretrained = "world \<Rightarrow> path \<Rightarrow> nat option \<Rightarrow> (error + 'm) \<times> world"

definition checkpoint_path :: "path option" where
  "checkpoint_path = Some ''./results_phase2/checkpoint-9580''"

definition base_model :: path where
  "base_model = ''allenai/longformer-base-4096''"

definition load_model :: "'m from_pretrained \<Rightarrow> path option \<Rightarrow> world \<Rightarrow> (error + 'm) \<times> world" where
  "load_model from_pretrained cp w =
     (case cp of
        None \<Rightarrow> from_pretrained w base_model (Some 3)
      | Some p \<Rightarrow>
          if p \<noteq> [] \<and> os_path_exists w p
          then (case from_pretrained w p None of
                  (Inl e, w1) \<Rightarrow> (Inl e, w1)
                | (Inr m, w1) \<Rightarrow>
                    (let rng_file = os_path_join p ''rng_state.pth''
                     in if os_path_exists w1 rng_file
                        then (case os_remove w1 rng_file of
                                Inl e \<Rightarrow> (Inl e, w1)
                              | Inr w2 \<Rightarrow> (Inr m, w2))
                        else (Inr m, w1)))
          else from_pretrained w base_model (Some 3))"

text \<open>Concrete labels, a model, a loss and a loader to run the definitions on.\<close>

definition example_labels :: "int list" where
  "example_labels = [0, 1, -1, 0, 0, 1]"

definition toy_forward :: "tensor dict \<Rightarrow> error + tensor dict" where
  "toy_forward inputs =
     (case map_of inputs ''input_ids'' of
        None \<Rightarrow> Inl TypeError
      | Some t \<Rightarrow> Inr [(''logits'', \<lparr>data = RealMatrix [[0, 1, 0]], device = CUDA\<rparr>)])"

definition toy_model :: model where
  "toy_model = \<lparr>model_device = CUDA, forward = toy_forward\<rparr>"

definition toy_loss :: "real loss_function" where
  "toy_loss w predicted target =
     (case (predicted, target) of
        (Some x, Some y) \<Rightarrow>
          if device w = device x
          then (case data w of RealVector ws \<Rightarrow> Inr (sum_list ws) | _ \<Rightarrow> Inl TypeError)
          else Inl (LibraryError ''RuntimeError'')
      | _ \<Rightarrow> Inl TypeError)"

definition example_batch :: "tensor dict" where
  "example_batch =
     [(''input_ids'', \<lparr>data = IntMatrix [[97, 98, 1, 1]], device = CUDA\<rparr>),
      (''attention_mask'', \<lparr>data = IntMatrix [[1, 1, 0, 0]], device = CUDA\<rparr>),
      (''labels'', \<lparr>data = IntVector [1], device = CUDA\<rparr>)]"

definition example_trainer :: WeightedTrainer where
  "example_trainer = \<lparr>trainer_class_weights = Some (torch_tensor (RealVector [2, 1, 3]))\<rparr>"

record toy_weights =
  weights :: bytes
  num_labels :: "nat option"

definition toy_from_pretrained :: "toy_weights from_pretrained" where
  "toy_from_pretrained w p n =
     (if p = base_model then (Inr \<lparr>weights = [0], num_labels = n\<rparr>, w)
      else (case files w (os_path_join p ''model.safetensors'') of
              Some (File b) \<Rightarrow> (Inr \<lparr>weights = b, num_labels = n\<rparr>, w)
            | _ \<Rightarrow> (Inl (LibraryError ''OSError''), w)))"

definition checkpoint_world :: world where
  "checkpoint_world =
     \<lparr>files = [''ckpt'' \<mapsto> Dir 4096, ''ckpt/model.safetensors'' \<mapsto> File [7, 7],
               ''ckpt/rng_state.pth'' \<mapsto> File [9]],
      trace = []\<rparr>"


section \<open>Properties of the tokenization cache\<close>

lemma getsize_of_existing:
  "os_path_exists w p \<Longrightarrow> \<exists>sz. os_path_getsize w p = Inr sz"
  by (auto simp: os_path_exists_def os_path_getsize_def split: option.splits node.splits)

lemma twc_hit:
  "cache_present w p \<Longrightarrow>
   tokenize_with_cache pickle_dump pickle_load texts tok ml p w = load_cache pickle_load p w"
  by (auto simp: cache_present_def tokenize_with_cache_def split: sum.splits)

lemma twc_miss:
  "\<not> cache_present w p \<Longrightarrow>
   tokenize_with_cache pickle_dump pickle_load texts tok ml p w =
   tokenize_and_store pickle_dump texts tok ml p w"
  using getsize_of_existing [of w p]
  by (auto simp: cache_present_def tokenize_with_cache_def split: sum.splits)

lemma load_cache_world: "snd (load_cache pickle_load p w) = w"
  by (simp add: load_cache_def split: sum.splits)

lemma loop_all_ok:
  "\<forall>t\<in>set ts. \<exists>e. tok t ml = Inr e \<Longrightarrow>
   fst (tokenize_loop tok ml n i ts ids masks tr) =
   Inr (ids @ map (\<lambda>t. input_ids (projr (tok t ml))) ts,
        masks @ map (\<lambda>t. attention_mask (projr (tok t ml))) ts)"
  by (induction ts arbitrary: i ids masks tr) (auto split: sum.splits)

lemma loop_some_fail:
  "\<exists>t\<in>set ts. \<exists>e. tok t ml = Inl e \<Longrightarrow>
   \<exists>e. fst (tokenize_loop tok ml n i ts ids masks tr) = Inl e"
proof (induction ts arbitrary: i ids masks tr)
  case Nil
  then show ?case by simp
next
  case (Cons a ts)
  show ?case
  proof (cases "tok a ml")
    case (Inl e)
    then show ?thesis by simp
  next
    case (Inr enc)
    with Cons.prems have "\<exists>t\<in>set ts. \<exists>e. tok t ml = Inl e"
      by auto
    from Cons.IH [OF this] Inr show ?thesis
      by simp
  qed
qed

lemma loop_Inr_all_ok:
  assumes "fst (tokenize_loop tok ml n i ts ids masks tr) = Inr r"
  shows "\<forall>t\<in>set ts. \<exists>e. tok t ml = Inr e"
proof (rule ccontr)
  assume "\<not> (\<forall>t\<in>set ts. \<exists>e. tok t ml = Inr e)"
  then have "\<exists>t\<in>set ts. \<exists>e. tok t ml = Inl e"
    by (metis sum.exhaust)
  from loop_some_fail [where tok = tok and ml = ml and ts = ts, OF this] assms show False
    by (metis sum.distinct(1))
qed

lemma store_files:
  "files (snd (tokenize_and_store pickle_dump texts tok ml p w)) = files w \<or>
   (\<exists>enc. fst (tokenize_and_store pickle_dump texts tok ml p w) = Inr enc \<and>
      files (snd (tokenize_and_store pickle_dump texts tok ml p w)) =
        (files w)(p \<mapsto> File (pickle_dump enc)) \<and>
      (\<forall>t\<in>set texts. \<exists>e. tok t ml = Inr e))"
proof (cases "tokenize_loop tok ml (length texts) 0 texts [] [] (trace w)")
  case (Pair r tr)
  show ?thesis
  proof (cases r)
    case (Inl e)
    with Pair show ?thesis by (simp add: tokenize_and_store_def)
  next
    case (Inr im)
    with Pair have "fst (tokenize_loop tok ml (length texts) 0 texts [] [] (trace w)) = Inr im"
      by simp
    then have ok: "\<forall>t\<in>set texts. \<exists>e. tok t ml = Inr e"
      by (rule loop_Inr_all_ok)
    from Pair Inr ok show ?thesis
      by (cases im) (auto simp: tokenize_and_store_def write_wb_def Let_def
          split: option.splits node.splits)
  qed
qed

lemma store_fail:
  assumes "\<exists>t\<in>set texts. \<exists>e. tok t ml = Inl e"
  shows "(\<exists>e. fst (tokenize_and_store pickle_dump texts tok ml p w) = Inl e) \<and>
         files (snd (tokenize_and_store pickle_dump texts tok ml p w)) = files w"
proof -
  from loop_some_fail [where tok = tok and ml = ml and ts = texts, OF assms]
  obtain e where "fst (tokenize_loop tok ml (length texts) 0 texts [] [] (trace w)) = Inl e"
    by blast
  then show ?thesis
    by (cases "tokenize_loop tok ml (length texts) 0 texts [] [] (trace w)")
       (simp add: tokenize_and_store_def)
qed

lemma store_ok:
  assumes ok: "\<forall>t\<in>set texts. \<exists>e. tok t ml = Inr e"
    and nodir: "\<forall>n. files w p \<noteq> Some (Dir n)"
  shows "fst (tokenize_and_store pickle_dump texts tok ml p w) =
           Inr [(''input_ids'', map (\<lambda>t. input_ids (projr (tok t ml))) texts),
                (''attention_mask'', map (\<lambda>t. attention_mask (projr (tok t ml))) texts)] \<and>
         files (snd (tokenize_and_store pickle_dump texts tok ml p w)) =
           (files w)(p \<mapsto> File (pickle_dump
              [(''input_ids'', map (\<lambda>t. input_ids (projr (tok t ml))) texts),
               (''attention_mask'', map (\<lambda>t. attention_mask (projr (tok t ml))) texts)]))"
proof -
  from loop_all_ok [where tok = tok and ml = ml and ts = texts and n = "length texts"
      and i = 0 and ids = "[]" and masks = "[]" and tr = "trace w", OF ok]
  have "fst (tokenize_loop tok ml (length texts) 0 texts [] [] (trace w)) =
        Inr (map (\<lambda>t. input_ids (projr (tok t ml))) texts,
             map (\<lambda>t. attention_mask (projr (tok t ml))) texts)"
    by simp
  with nodir show ?thesis
    by (cases "tokenize_loop tok ml (length texts) 0 texts [] [] (trace w)")
       (auto simp: tokenize_and_store_def write_wb_def Let_def split: option.splits node.splits)
qed

lemma store_Inr:
  assumes "fst (tokenize_and_store pickle_dump texts tok ml p w) = Inr enc"
  shows "files (snd (tokenize_and_store pickle_dump texts tok ml p w)) =
           (files w)(p \<mapsto> File (pickle_dump enc))"
proof (cases "tokenize_loop tok ml (length texts) 0 texts [] [] (trace w)")
  case (Pair r tr)
  with assms show ?thesis
    by (cases r)
       (auto simp: tokenize_and_store_def write_wb_def Let_def
          split: option.splits node.splits prod.splits)
qed

lemma cache_present_files:
  "cache_present w p =
     (case files w p of None \<Rightarrow> False | Some (File b) \<Rightarrow> b \<noteq> [] | Some (Dir n) \<Rightarrow> 0 < n)"
  by (simp add: cache_present_def os_path_exists_def os_path_getsize_def
      split: option.splits node.splits)

text \<open>
  Claim C1 (tokenization cache idempotence). When the first call finds no usable cache
  at the path and returns the encodings \<open>enc\<close>, it has written \<open>enc\<close> to the path; a
  second call with the same arguments in the resulting world returns \<open>enc\<close> again and
  leaves the world, with its trace of tokenizer calls, as it was: nothing is tokenized
  again. The two facts about \<^verbatim>\<open>pickle\<close> that are used are hypotheses: loading what was
  dumped gives the object back, and a dump is never empty.
\<close>

theorem cache_idempotence:
  assumes miss: "\<not> cache_present w p"
    and first: "fst (tokenize_with_cache pickle_dump pickle_load texts tok ml p w) = Inr enc"
    and rt: "pickle_load (pickle_dump enc) = Inr enc"
    and ne: "pickle_dump enc \<noteq> []"
  shows "tokenize_with_cache pickle_dump pickle_load texts tok ml p
           (snd (tokenize_with_cache pickle_dump pickle_load texts tok ml p w)) =
         (Inr enc, snd (tokenize_with_cache pickle_dump pickle_load texts tok ml p w)) \<and>
         files (snd (tokenize_with_cache pickle_dump pickle_load texts tok ml p w)) p =
           Some (File (pickle_dump enc))"
proof -
  let ?w' = "snd (tokenize_with_cache pickle_dump pickle_load texts tok ml p w)"
  have eq: "tokenize_with_cache pickle_dump pickle_load texts tok ml p w =
            tokenize_and_store pickle_dump texts tok ml p w"
    using miss by (rule twc_miss)
  with first have "fst (tokenize_and_store pickle_dump texts tok ml p w) = Inr enc"
    by simp
  then have "files (snd (tokenize_and_store pickle_dump texts tok ml p w)) =
             (files w)(p \<mapsto> File (pickle_dump enc))"
    by (rule store_Inr)
  with eq have written: "files ?w' p = Some (File (pickle_dump enc))"
    by simp
  with ne have "cache_present ?w' p"
    by (simp add: cache_present_files)
  then have "tokenize_with_cache pickle_dump pickle_load texts tok ml p ?w' =
             load_cache pickle_load p ?w'"
    by (rule twc_hit)
  also have "\<dots> = (Inr enc, ?w')"
    using written rt by (simp add: load_cache_def read_rb_def)
  finally show ?thesis
    using written by simp
qed

theorem cache_idempotence_witness:
  "\<not> cache_present empty_world ''cache.pkl'' \<and>
   tokenize_with_cache toy_dump toy_load example_texts toy_tokenizer 4 ''cache.pkl''
     (snd (tokenize_with_cache toy_dump toy_load example_texts toy_tokenizer 4 ''cache.pkl''
        empty_world)) =
   (Inr example_encodings,
    snd (tokenize_with_cache toy_dump toy_load example_texts toy_tokenizer 4 ''cache.pkl''
        empty_world))"
proof -
  have h1: "\<not> cache_present empty_world ''cache.pkl''"
    by (simp add: cache_present_def os_path_exists_def empty_world_def)
  have h2: "fst (tokenize_with_cache toy_dump toy_load example_texts toy_tokenizer 4 ''cache.pkl''
              empty_world) = Inr example_encodings"
    by code_simp
  have h3: "toy_load (toy_dump example_encodings) = Inr example_encodings"
    by code_simp
  have h4: "toy_dump example_encodings \<noteq> []"
    by (simp add: toy_dump_def)
  from cache_idempotence [OF h1 h2 h3 h4] h1 show ?thesis
    by simp
qed

text \<open>
  Claim C9 (cache-hit noninterference). When the cache path exists and is not empty,
  the result is decided by what the path holds: any two calls, with whatever texts,
  tokenizer, \<^verbatim>\<open>max_length\<close> and world around the same node at the path, return the
  same value, which is what \<^verbatim>\<open>pickle.load\<close> makes of the file; the world is unchanged.
\<close>

theorem cache_hit_noninterference:
  assumes hit: "cache_present w p"
    and same: "files w' p = files w p"
  shows "fst (tokenize_with_cache dump1 pickle_load texts1 tok1 ml1 p w) =
         fst (tokenize_with_cache dump2 pickle_load texts2 tok2 ml2 p w') \<and>
         fst (tokenize_with_cache dump1 pickle_load texts1 tok1 ml1 p w) =
           (case files w p of Some (File b) \<Rightarrow> pickle_load b | _ \<Rightarrow> Inl IsADirectoryError) \<and>
         snd (tokenize_with_cache dump1 pickle_load texts1 tok1 ml1 p w) = w"
proof -
  from hit same have hit': "cache_present w' p"
    by (simp add: cache_present_files)
  have r: "fst (load_cache pickle_load p v) =
           (case files v p of Some (File b) \<Rightarrow> pickle_load b | _ \<Rightarrow> Inl IsADirectoryError)"
    if "cache_present v p" for v
    using that
    by (auto simp: cache_present_files load_cache_def read_rb_def split: option.splits node.splits)
  show ?thesis
    using r [OF hit] r [OF hit'] same
    by (simp add: twc_hit [OF hit] twc_hit [OF hit'] load_cache_world)
qed

theorem cache_hit_noninterference_witness:
  "cache_present cached_world ''cache.pkl'' \<and>
   files stale_world ''cache.pkl'' = files cached_world ''cache.pkl'' \<and>
   fst (tokenize_with_cache toy_dump toy_load example_texts toy_tokenizer 4 ''cache.pkl''
          cached_world) =
   fst (tokenize_with_cache (\<lambda>d. []) toy_load [''zzz''] failing_tokenizer 9 ''cache.pkl''
          stale_world) \<and>
   fst (tokenize_with_cache toy_dump toy_load example_texts toy_tokenizer 4 ''cache.pkl''
          cached_world) = Inr example_encodings"
proof -
  have h1: "cache_present cached_world ''cache.pkl''"
    by (simp add: cache_present_def os_path_exists_def os_path_getsize_def cached_world_def
        toy_dump_def)
  have h2: "files stale_world ''cache.pkl'' = files cached_world ''cache.pkl''"
    by (simp add: stale_world_def cached_world_def)
  have h3: "toy_load (toy_dump example_encodings) = Inr example_encodings"
    by code_simp
  have h4: "files cached_world ''cache.pkl'' = Some (File (toy_dump example_encodings))"
    by (simp add: cached_world_def)
  note t = cache_hit_noninterference [OF h1 h2, of toy_dump toy_load example_texts toy_tokenizer 4
      "\<lambda>d. []" "[''zzz'']" failing_tokenizer 9]
  from t have a: "fst (tokenize_with_cache toy_dump toy_load example_texts toy_tokenizer 4
      ''cache.pkl'' cached_world) =
    fst (tokenize_with_cache (\<lambda>d. []) toy_load [''zzz''] failing_tokenizer 9 ''cache.pkl''
      stale_world)"
    by blast
  from t have "fst (tokenize_with_cache toy_dump toy_load example_texts toy_tokenizer 4
      ''cache.pkl'' cached_world) =
    (case files cached_world ''cache.pkl'' of
       Some (File b) \<Rightarrow> toy_load b | _ \<Rightarrow> Inl IsADirectoryError)"
    by blast
  with h3 h4 have b: "fst (tokenize_with_cache toy_dump toy_load example_texts toy_tokenizer 4
      ''cache.pkl'' cached_world) = Inr example_encodings"
    by simp
  from h1 h2 a b show ?thesis
    by blast
qed

text \<open>
  Claim C8 (cache write atomicity). If, on a cache miss, the tokenizer raises on any of
  the texts, the call raises and the files are exactly as before. Conversely the files
  change only when every text has been tokenized and the call returns the encodings,
  and then the only change is the one write of the complete dictionary at the path.
\<close>

theorem cache_write_atomicity:
  "((\<exists>t\<in>set texts. \<exists>e. tok t ml = Inl e) \<and> \<not> cache_present w p \<longrightarrow>
      (\<exists>e. fst (tokenize_with_cache pickle_dump pickle_load texts tok ml p w) = Inl e) \<and>
      files (snd (tokenize_with_cache pickle_dump pickle_load texts tok ml p w)) = files w) \<and>
   (files (snd (tokenize_with_cache pickle_dump pickle_load texts tok ml p w)) \<noteq> files w \<longrightarrow>
      (\<forall>t\<in>set texts. \<exists>e. tok t ml = Inr e) \<and>
      (\<exists>enc. fst (tokenize_with_cache pickle_dump pickle_load texts tok ml p w) = Inr enc \<and>
         files (snd (tokenize_with_cache pickle_dump pickle_load texts tok ml p w)) =
           (files w)(p \<mapsto> File (pickle_dump enc))))"
proof (cases "cache_present w p")
  case True
  then show ?thesis
    by (simp add: twc_hit load_cache_world)
next
  case False
  then have eq: "tokenize_with_cache pickle_dump pickle_load texts tok ml p w =
                 tokenize_and_store pickle_dump texts tok ml p w"
    by (rule twc_miss)
  show ?thesis
    unfolding eq
    using store_fail [of texts tok ml pickle_dump p w] store_files [of pickle_dump texts tok ml p w]
    by blast
qed

theorem cache_write_atomicity_witness:
  "(\<exists>t\<in>set bad_texts.  \<exists>e. failing_tokenizer t 4 = Inl e) \<and>
   \<not> cache_present empty_world ''cache.pkl'' \<and>
   (\<exists>e. fst (tokenize_with_cache toy_dump toy_load bad_texts failing_tokenizer 4 ''cache.pkl''
            empty_world) = Inl e) \<and>
   files (snd (tokenize_with_cache toy_dump toy_load bad_texts failing_tokenizer 4
            ''cache.pkl'' empty_world)) = files empty_world \<and>
   files (snd (tokenize_with_cache toy_dump toy_load example_texts toy_tokenizer 4
            ''cache.pkl'' empty_world)) \<noteq> files empty_world \<and>
   (\<exists>enc. fst (tokenize_with_cache toy_dump toy_load example_texts toy_tokenizer 4
            ''cache.pkl'' empty_world) = Inr enc)"
proof -
  have h1: "\<exists>t\<in>set bad_texts.  \<exists>e. failing_tokenizer t 4 = Inl e"
    by (simp add: failing_tokenizer_def bad_texts_def)
  have h2: "\<not> cache_present empty_world ''cache.pkl''"
    by (simp add: cache_present_def os_path_exists_def empty_world_def)
  have "files (snd (tokenize_with_cache toy_dump toy_load example_texts toy_tokenizer 4
            ''cache.pkl'' empty_world)) ''cache.pkl'' \<noteq> files empty_world ''cache.pkl''"
    by (simp add: tokenize_with_cache_def tokenize_and_store_def os_path_exists_def
        empty_world_def example_texts_def toy_tokenizer_def write_wb_def Let_def)
  then have h3: "files (snd (tokenize_with_cache toy_dump toy_load example_texts toy_tokenizer 4
            ''cache.pkl'' empty_world)) \<noteq> files empty_world"
    by metis
  note a = cache_write_atomicity [of bad_texts failing_tokenizer 4 empty_world "''cache.pkl''"
      toy_dump toy_load]
  note b = cache_write_atomicity [of example_texts toy_tokenizer 4 empty_world "''cache.pkl''"
      toy_dump toy_load]
  from a b h1 h2 h3 show ?thesis
    by blast
qed

text \<open>
  Claim C2 (cache-miss tokenization). On a cache miss, with a tokenizer that pads and
  truncates every text to \<open>ml\<close> entries and a path that is not a directory, the call
  returns the dictionary with the keys \<^verbatim>\<open>input_ids\<close> and \<^verbatim>\<open>attention_mask\<close>, in that order;
  both arrays have one entry per text, the \<open>i\<close>-th entry being the encoding of the
  \<open>i\<close>-th text, every entry has length \<open>ml\<close>, and the file at the path holds the dump
  of that dictionary.
\<close>

theorem cache_miss_tokenization:
  assumes miss: "\<not> cache_present w p"
    and nodir: "\<forall>n. files w p \<noteq> Some (Dir n)"
    and tok_ok: "\<forall>t\<in>set texts. \<exists>e. tok t ml = Inr e \<and> length (input_ids e) = ml \<and>
                   length (attention_mask e) = ml"
  shows "\<exists>ids masks.
           fst (tokenize_with_cache pickle_dump pickle_load texts tok ml p w) =
             Inr [(''input_ids'', ids), (''attention_mask'', masks)] \<and>
           length ids = length texts \<and> length masks = length texts \<and>
           (\<forall>i<length texts.
              tok (texts ! i) ml = Inr \<lparr>input_ids = ids ! i, attention_mask = masks ! i\<rparr>) \<and>
           (\<forall>x\<in>set ids. length x = ml) \<and> (\<forall>x\<in>set masks. length x = ml) \<and>
           files (snd (tokenize_with_cache pickle_dump pickle_load texts tok ml p w)) =
             (files w)(p \<mapsto> File (pickle_dump [(''input_ids'', ids), (''attention_mask'', masks)]))"
proof -
  let ?ids = "map (\<lambda>t. input_ids (projr (tok t ml))) texts"
  let ?masks = "map (\<lambda>t. attention_mask (projr (tok t ml))) texts"
  from tok_ok have ok: "\<forall>t\<in>set texts. \<exists>e. tok t ml = Inr e"
    by blast
  have eq: "tokenize_with_cache pickle_dump pickle_load texts tok ml p w =
            tokenize_and_store pickle_dump texts tok ml p w"
    using miss by (rule twc_miss)
  have each: "tok (texts ! i) ml = Inr \<lparr>input_ids = ?ids ! i, attention_mask = ?masks ! i\<rparr>"
    if "i < length texts" for i
  proof -
    from that ok obtain e where "tok (texts ! i) ml = Inr e"
      by (meson nth_mem)
    with that show ?thesis by simp
  qed
  have len_ids: "\<forall>x\<in>set ?ids. length x = ml"
    using tok_ok by fastforce
  have len_masks: "\<forall>x\<in>set ?masks. length x = ml"
    using tok_ok by fastforce
  from store_ok [where tok = tok and ml = ml and texts = texts, OF ok nodir, of pickle_dump]
    each len_ids len_masks
  show ?thesis
    unfolding eq
    by (intro exI [of _ ?ids] exI [of _ ?masks]) simp
qed

theorem cache_miss_tokenization_witness:
  "\<not> cache_present empty_world ''cache.pkl'' \<and>
   (\<forall>n. files empty_world ''cache.pkl'' \<noteq> Some (Dir n)) \<and>
   toy_tokenizer ''ab'' 4 = Inr \<lparr>input_ids = [97, 98, 1, 1], attention_mask = [1, 1, 0, 0]\<rparr> \<and>
   toy_tokenizer ''cdefg'' 4 =
     Inr \<lparr>input_ids = [99, 100, 101, 102], attention_mask = [1, 1, 1, 1]\<rparr> \<and>
   (\<exists>ids masks.
      fst (tokenize_with_cache toy_dump toy_load example_texts toy_tokenizer 4 ''cache.pkl''
             empty_world) = Inr [(''input_ids'', ids), (''attention_mask'', masks)] \<and>
      length ids = length example_texts \<and> length masks = length example_texts \<and>
      (\<forall>x\<in>set ids. length x = 4) \<and> (\<forall>x\<in>set masks. length x = 4))"
proof -
  have h1: "\<not> cache_present empty_world ''cache.pkl''"
    by (simp add: cache_present_def os_path_exists_def empty_world_def)
  have h2: "\<forall>n. files empty_world ''cache.pkl'' \<noteq> Some (Dir n)"
    by (simp add: empty_world_def)
  have h3: "\<forall>t\<in>set example_texts. \<exists>e. toy_tokenizer t 4 = Inr e \<and> length (input_ids e) = 4 \<and>
      length (attention_mask e) = 4"
    by (simp add: example_texts_def toy_tokenizer_def)
  have h4: "toy_tokenizer ''ab'' 4 =
      Inr \<lparr>input_ids = [97, 98, 1, 1], attention_mask = [1, 1, 0, 0]\<rparr>"
    by (simp add: toy_tokenizer_def eval_nat_numeral)
  have h5: "toy_tokenizer ''cdefg'' 4 =
      Inr \<lparr>input_ids = [99, 100, 101, 102], attention_mask = [1, 1, 1, 1]\<rparr>"
    by (simp add: toy_tokenizer_def eval_nat_numeral)
  from cache_miss_tokenization [where w = empty_world and p = "''cache.pkl''"
      and texts = example_texts and tok = toy_tokenizer and ml = 4
      and pickle_dump = toy_dump and pickle_load = toy_load, OF h1 h2 h3] h1 h2 h4 h5
  show ?thesis
    by blast
qed

section \<open>Properties of the dataset adapter\<close>

lemma list_getitem_in_range:
  "0 \<le> i \<Longrightarrow> (\<exists>x. list_getitem xs i = Inr x) = (i < int (length xs))"
  by (auto simp: list_getitem_def)

lemma list_getitem_at_length: "list_getitem xs (int (length xs)) = Inl IndexError"
  by (simp add: list_getitem_def)

lemma list_getitem_error: "list_getitem xs i = Inl e \<Longrightarrow> e = IndexError"
  by (auto simp: list_getitem_def split: if_splits)

lemma getitem_succeeds_iff:
  assumes ids: "map_of (encodings ds) ''input_ids'' = Some ids"
    and masks: "map_of (encodings ds) ''attention_mask'' = Some masks"
    and idx: "0 \<le> idx"
  shows "(\<exists>it. NewsDataset_getitem ds idx = Inr it) =
         (idx < int (length ids) \<and> idx < int (length masks) \<and> idx < int (length (labels ds)))"
  using list_getitem_in_range [OF idx, of ids] list_getitem_in_range [OF idx, of masks]
    list_getitem_in_range [OF idx, of "labels ds"] ids masks
  by (auto simp: NewsDataset_getitem_def dict_getitem_def split: sum.splits)

lemma getitem_index_error:
  assumes ids: "map_of (encodings ds) ''input_ids'' = Some ids"
    and masks: "map_of (encodings ds) ''attention_mask'' = Some masks"
    and "list_getitem ids idx = Inl IndexError \<or> list_getitem masks idx = Inl IndexError"
  shows "NewsDataset_getitem ds idx = Inl IndexError"
  using assms
  by (auto simp: NewsDataset_getitem_def dict_getitem_def split: sum.splits
      dest: list_getitem_error)

text \<open>
  Claim C10 (dataset adapter indexing safety). \<^verbatim>\<open>__len__\<close> is the number of labels,
  whatever the encodings are. For encodings that have both arrays, \<^verbatim>\<open>__getitem__\<close>
  returns an item at every index from 0 up to \<^verbatim>\<open>__len__\<close> exactly when both arrays are
  at least as long as the label list. When an array is shorter, as with a stale cache,
  indexing at that array's length, an index below \<^verbatim>\<open>__len__\<close>, raises \<^verbatim>\<open>IndexError\<close>.
\<close>

theorem dataset_indexing_safety:
  assumes ids: "map_of (encodings ds) ''input_ids'' = Some ids"
    and masks: "map_of (encodings ds) ''attention_mask'' = Some masks"
  shows "NewsDataset_len ds = length (labels ds) \<and>
         NewsDataset_len (ds\<lparr>encodings := e\<rparr>) = NewsDataset_len ds \<and>
         ((\<forall>idx. 0 \<le> idx \<and> idx < int (NewsDataset_len ds) \<longrightarrow>
              (\<exists>it. NewsDataset_getitem ds idx = Inr it)) \<longleftrightarrow>
          (NewsDataset_len ds \<le> length ids \<and> NewsDataset_len ds \<le> length masks)) \<and>
         (length ids < NewsDataset_len ds \<longrightarrow>
            NewsDataset_getitem ds (int (length ids)) = Inl IndexError) \<and>
         (length masks < NewsDataset_len ds \<longrightarrow>
            NewsDataset_getitem ds (int (length masks)) = Inl IndexError)"
proof -
  let ?n = "NewsDataset_len ds"
  have n: "?n = length (labels ds)"
    by (simp add: NewsDataset_len_def)
  have indep: "NewsDataset_len (ds\<lparr>encodings := e\<rparr>) = ?n"
    by (simp add: NewsDataset_len_def)
  have at_ids: "NewsDataset_getitem ds (int (length ids)) = Inl IndexError"
    using getitem_index_error [OF ids masks] list_getitem_at_length by blast
  have at_masks: "NewsDataset_getitem ds (int (length masks)) = Inl IndexError"
    using getitem_index_error [OF ids masks] list_getitem_at_length by blast
  have all_iff: "(\<forall>idx. 0 \<le> idx \<and> idx < int ?n \<longrightarrow> (\<exists>it. NewsDataset_getitem ds idx = Inr it)) \<longleftrightarrow>
                 (?n \<le> length ids \<and> ?n \<le> length masks)"
  proof
    assume all: "\<forall>idx. 0 \<le> idx \<and> idx < int ?n \<longrightarrow> (\<exists>it. NewsDataset_getitem ds idx = Inr it)"
    have "?n \<le> length ids"
    proof (rule ccontr)
      assume "\<not> ?n \<le> length ids"
      then have "0 \<le> int (length ids) \<and> int (length ids) < int ?n" by simp
      with all at_ids show False by fastforce
    qed
    moreover have "?n \<le> length masks"
    proof (rule ccontr)
      assume "\<not> ?n \<le> length masks"
      then have "0 \<le> int (length masks) \<and> int (length masks) < int ?n" by simp
      with all at_masks show False by fastforce
    qed
    ultimately show "?n \<le> length ids \<and> ?n \<le> length masks" ..
  next
    assume long: "?n \<le> length ids \<and> ?n \<le> length masks"
    show "\<forall>idx. 0 \<le> idx \<and> idx < int ?n \<longrightarrow> (\<exists>it. NewsDataset_getitem ds idx = Inr it)"
    proof (intro allI impI)
      fix idx :: int
      assume r: "0 \<le> idx \<and> idx < int ?n"
      with long n have "idx < int (length ids) \<and> idx < int (length masks) \<and>
          idx < int (length (labels ds))"
        by simp
      with r getitem_succeeds_iff [OF ids masks, of idx]
      show "\<exists>it. NewsDataset_getitem ds idx = Inr it"
        by simp
    qed
  qed
  from n indep all_iff at_ids at_masks show ?thesis
    by blast
qed

theorem dataset_indexing_safety_witness:
  "map_of (encodings stale_dataset) ''input_ids'' = Some [[97, 98, 1, 1], [99, 100, 101, 102]] \<and>
   map_of (encodings stale_dataset) ''attention_mask'' = Some [[1, 1, 0, 0], [1, 1, 1, 1]] \<and>
   NewsDataset_len stale_dataset = 3 \<and>
   NewsDataset_getitem stale_dataset 2 = Inl IndexError \<and>
   \<not> (\<forall>idx. 0 \<le> idx \<and> idx < int (NewsDataset_len stale_dataset) \<longrightarrow>
              (\<exists>it. NewsDataset_getitem stale_dataset idx = Inr it))"
proof -
  have h1: "map_of (encodings stale_dataset) ''input_ids'' =
      Some [[97, 98, 1, 1], [99, 100, 101, 102]]"
    by (simp add: stale_dataset_def NewsDataset_init_def example_encodings_def)
  have h2: "map_of (encodings stale_dataset) ''attention_mask'' =
      Some [[1, 1, 0, 0], [1, 1, 1, 1]]"
    by (simp add: stale_dataset_def NewsDataset_init_def example_encodings_def)
  have h3: "NewsDataset_len stale_dataset = 3"
    by (simp add: stale_dataset_def NewsDataset_init_def NewsDataset_len_def)
  note t = dataset_indexing_safety [OF h1 h2]
  from t h3 have a: "NewsDataset_getitem stale_dataset 2 = Inl IndexError"
    by simp
  from t h3 have b: "\<not> (\<forall>idx. 0 \<le> idx \<and> idx < int (NewsDataset_len stale_dataset) \<longrightarrow>
              (\<exists>it. NewsDataset_getitem stale_dataset idx = Inr it))"
    by simp
  from h1 h2 h3 a b show ?thesis
    by blast
qed

text \<open>
  Claim C4 (label shift round trip). The item that \<^verbatim>\<open>__getitem__\<close> returns for a label
  \<open>l\<close> of \<open>{-1, 0, 1}\<close> carries \<open>l + 1\<close>, which lies in \<open>{0, 1, 2}\<close>, and the label
  vector that \<^verbatim>\<open>compute_metrics\<close> computes from it is \<open>l\<close> again. The shift maps
  \<open>{-1, 0, 1}\<close> one-to-one onto \<open>{0, 1, 2}\<close>, and the shift back is its inverse.
\<close>

theorem label_shift_roundtrip:
  assumes it: "NewsDataset_getitem ds idx = Inr it"
    and l: "list_getitem (labels ds) idx = Inr l"
    and dom: "l \<in> {-1, 0, 1}"
  shows "item_labels it = l + 1 \<and> item_labels it \<in> {0, 1, 2} \<and>
         metrics_labels \<lparr>predictions = logits, label_ids = [item_labels it]\<rparr> = [l] \<and>
         bij_betw (\<lambda>x. x + 1) {-1, 0, 1 :: int} {0, 1, 2} \<and>
         bij_betw (\<lambda>x. x - 1) {0, 1, 2 :: int} {-1, 0, 1}"
proof -
  from it l have shifted: "item_labels it = l + 1"
    by (auto simp: NewsDataset_getitem_def split: sum.splits)
  with dom have range: "item_labels it \<in> {0, 1, 2}"
    by auto
  from shifted have unshifted: "metrics_labels \<lparr>predictions = logits, label_ids = [item_labels it]\<rparr> = [l]"
    by (simp add: metrics_labels_def)
  have up: "bij_betw (\<lambda>x. x + 1) {-1, 0, 1 :: int} {0, 1, 2}"
    by (auto simp: bij_betw_def inj_on_def)
  have down: "bij_betw (\<lambda>x. x - 1) {0, 1, 2 :: int} {-1, 0, 1}"
    by (auto simp: bij_betw_def inj_on_def)
  from shifted range unshifted up down show ?thesis
    by blast
qed

theorem label_shift_roundtrip_witness:
  "NewsDataset_getitem example_dataset 1 =
     Inr \<lparr>item_input_ids = [99, 100, 101, 102], item_attention_mask = [1, 1, 1, 1],
          item_labels = 2\<rparr> \<and>
   list_getitem (labels example_dataset) 1 = Inr 1 \<and>
   metrics_labels \<lparr>predictions = [], label_ids = [2]\<rparr> = [1]"
proof -
  have h1: "NewsDataset_getitem example_dataset 1 =
     Inr \<lparr>item_input_ids = [99, 100, 101, 102], item_attention_mask = [1, 1, 1, 1],
          item_labels = 2\<rparr>"
    by (simp add: example_dataset_def NewsDataset_init_def NewsDataset_getitem_def
        example_encodings_def dict_getitem_def list_getitem_def)
  have h2: "list_getitem (labels example_dataset) 1 = Inr 1"
    by (simp add: example_dataset_def NewsDataset_init_def list_getitem_def)
  have h3: "(1::int) \<in> {-1, 0, 1}"
    by simp
  from label_shift_roundtrip [OF h1 h2 h3, of "[]"] h1 h2 show ?thesis
    by simp
qed

section \<open>Properties of the metrics\<close>

lemma argmax_axis1_all2:
  "list_all2 (\<lambda>row l. \<exists>k. argmax_row row = Inr k \<and> int k = l) rows ls \<Longrightarrow>
   np_argmax_axis1 rows = Inr ls"
  by (induction rows ls rule: list_all2_induct) auto

lemma agree_with_itself: "length (filter (\<lambda>(t, p). t = p) (zip ys ys)) = length ys"
  by (induction ys) auto

lemma true_positives_same:
  "length (filter (\<lambda>(t, p). t = l \<and> p = l) (zip ys ys)) = count_list ys l"
  by (induction ys) auto

lemma accuracy_same: "ys \<noteq> [] \<Longrightarrow> accuracy_score ys ys = Inr 1"
  by (simp add: accuracy_score_def agree_with_itself)

lemma f1_of_label_same:
  assumes "l \<in> set ys"
  shows "f1_of_label ys ys l = 1"
proof -
  from assms have "0 < count_list ys l"
    by (induction ys) auto
  then show ?thesis
    by (simp add: f1_of_label_def true_positives_same ratio_def)
qed

lemma sum_list_ones:
  "\<forall>x\<in>set xs. f x = (1::real) \<Longrightarrow> sum_list (map f xs) = real (length xs)"
  by (induction xs) auto

lemma f1_macro_same:
  assumes "ys \<noteq> []"
  shows "f1_score_macro ys ys = Inr 1"
proof -
  let ?present = "sort (remdups (ys @ ys))"
  have mem: "set ?present = set ys"
    by simp
  then have "\<forall>l\<in>set ?present. f1_of_label ys ys l = 1"
    using f1_of_label_same by blast
  then have total: "sum_list (map (f1_of_label ys ys) ?present) = real (length ?present)"
    by (rule sum_list_ones)
  from assms have nz: "real (length ?present) \<noteq> 0"
    by simp
  from assms have "f1_score_macro ys ys =
      Inr (sum_list (map (f1_of_label ys ys) ?present) / real (length ?present))"
    by (simp add: f1_score_macro_def Let_def)
  also from total nz have "\<dots> = Inr 1"
    by simp
  finally show ?thesis .
qed

text \<open>
  Claim C5 (metrics on perfect predictions). For a non-empty batch in which the first
  largest logit of every row stands at the index given by the row's label id,
  \<^verbatim>\<open>compute_metrics\<close> returns accuracy 1 and macro-averaged F1 1. Rows of any positive
  width are covered, the three-column matrix of the script among them.
\<close>

theorem metrics_perfect_predictions:
  assumes nonempty: "label_ids pred \<noteq> []"
    and perfect: "list_all2 (\<lambda>row l. \<exists>k. argmax_row row = Inr k \<and> int k = l)
                    (predictions pred) (label_ids pred)"
  shows "compute_metrics pred = Inr [(''accuracy'', 1), (''f1'', 1)]"
proof -
  from perfect have "np_argmax_axis1 (predictions pred) = Inr (label_ids pred)"
    by (rule argmax_axis1_all2)
  then have preds: "metrics_preds pred = Inr (metrics_labels pred)"
    by (simp add: metrics_preds_def metrics_labels_def)
  from nonempty have ne: "metrics_labels pred \<noteq> []"
    by (simp add: metrics_labels_def)
  from preds accuracy_same [OF ne] f1_macro_same [OF ne] show ?thesis
    by (simp add: compute_metrics_def)
qed

theorem metrics_perfect_predictions_witness:
  "label_ids example_pred \<noteq> [] \<and>
   np_argmax_axis1 (predictions example_pred) = Inr (label_ids example_pred) \<and>
   compute_metrics example_pred = Inr [(''accuracy'', 1), (''f1'', 1)]"
proof -
  have h1: "label_ids example_pred \<noteq> []"
    by (simp add: example_pred_def)
  have h2: "list_all2 (\<lambda>row l. \<exists>k. argmax_row row = Inr k \<and> int k = l)
              (predictions example_pred) (label_ids example_pred)"
    by (simp add: example_pred_def argmax_row_def)
  have h3: "np_argmax_axis1 (predictions example_pred) = Inr (label_ids example_pred)"
    by (simp add: example_pred_def argmax_row_def)
  from metrics_perfect_predictions [OF h1 h2] h1 h3 show ?thesis
    by simp
qed

section \<open>Properties of the class weights\<close>

lemma three_labels_length:
  assumes "set y \<subseteq> {-1, 0, 1 :: int}"
  shows "length y = count_list y (-1) + count_list y 0 + count_list y 1"
proof -
  have "sum (count_list y) {-1, 0, 1 :: int} = length y"
    using assms by (intro sum_count_set) auto
  then show ?thesis by simp
qed

lemma three_labels_present:
  assumes dom: "set y \<subseteq> {-1, 0, 1 :: int}"
    and "0 < count_list y (-1)" and "0 < count_list y 0" and "0 < count_list y 1"
  shows "set y = {-1, 0, 1}" and "length (sort (remdups y)) = 3"
proof -
  from assms(2-4) have "-1 \<in> set y" and "0 \<in> set y" and "1 \<in> set y"
    using count_list_0_iff [of y] by (metis less_numeral_extra(3))+
  with dom show s: "set y = {-1, 0, 1}"
    by auto
  have "length (sort (remdups y)) = card (set y)"
    by (simp add: length_remdups_card_conv)
  with s show "length (sort (remdups y)) = 3"
    by simp
qed

lemma weight_antimono:
  fixes x y n :: nat
  assumes "0 < x" and "x \<le> y"
  shows "real n / (3 * real y) \<le> real n / (3 * real x)"
  using assms by (simp add: frac_le)

text \<open>
  Claim C3 (class weights). For training labels drawn from \<open>{-1, 0, 1}\<close> with counts
  \<open>a\<close>, \<open>b\<close>, \<open>c\<close>, all positive, the weights are
  \<open>(a + b + c) / (3 * count)\<close> in the class order \<open>-1, 0, 1\<close>; every weight is
  positive; a class with at least as many examples as another gets a weight no larger;
  and the weight tensor of the script is the same whatever the validation labels and
  the encodings are.
\<close>

theorem class_weight_correctness:
  assumes dom: "set train_labels \<subseteq> {-1, 0, 1}"
    and a: "count_list train_labels (-1) = a"
    and b: "count_list train_labels 0 = b"
    and c: "count_list train_labels 1 = c"
    and pos: "0 < a" "0 < b" "0 < c"
  shows "\<exists>ws. class_weights train_labels = Inr ws \<and>
           ws = [real (a + b + c) / (3 * real a), real (a + b + c) / (3 * real b),
                 real (a + b + c) / (3 * real c)] \<and>
           (\<forall>i<3. 0 < ws ! i) \<and>
           (\<forall>i<3. \<forall>j<3.
              count_list train_labels (int i - 1) \<le> count_list train_labels (int j - 1) \<longrightarrow>
              ws ! j \<le> ws ! i) \<and>
           prepare train_enc val_enc train_labels val_labels =
             Inr \<lparr>train_dataset = NewsDataset_init train_enc train_labels,
                  val_dataset = NewsDataset_init val_enc val_labels,
                  class_weights_tensor = torch_tensor (RealVector ws)\<rparr> \<and>
           map_sum id class_weights_tensor (prepare train_enc val_enc train_labels val_labels) =
           map_sum id class_weights_tensor (prepare train_enc' val_enc' train_labels val_labels')"
proof -
  let ?n = "a + b + c"
  let ?w = "\<lambda>k. real ?n / (3 * real (count_list train_labels k))"
  let ?ws = "[?w (-1), ?w 0, ?w 1]"
  from pos a b c have cpos: "0 < count_list train_labels (-1)" "0 < count_list train_labels 0"
      "0 < count_list train_labels 1"
    by simp_all
  have len: "length train_labels = ?n"
    using three_labels_length [OF dom] a b c by simp
  have present: "set train_labels = {-1, 0, 1}" "length (sort (remdups train_labels)) = 3"
    using three_labels_present [OF dom cpos] by simp_all
  have all_in: "list_all (\<lambda>l. l \<in> set [-1, 0, 1 :: int]) train_labels"
    using dom by (auto simp: list_all_iff)
  have cw: "class_weights train_labels = Inr ?ws"
    using all_in present len
    by (simp add: class_weights_def compute_class_weight_balanced_def Let_def)
  have nth: "?ws ! i = ?w (int i - 1)" if "i < 3" for i
  proof -
    from that consider "i = 0" | "i = 1" | "i = 2"
      by linarith
    then show ?thesis
      by cases simp_all
  qed
  have cnt: "0 < count_list train_labels (int i - 1)" if "i < 3" for i
  proof -
    from that consider "i = 0" | "i = 1" | "i = 2"
      by linarith
    then show ?thesis
      using cpos by cases simp_all
  qed
  have positive: "\<forall>i<3. 0 < ?ws ! i"
  proof (intro allI impI)
    fix i :: nat
    assume i: "i < 3"
    from pos have "0 < real ?n" by simp
    with cnt [OF i] have "0 < ?w (int i - 1)" by simp
    with nth [OF i] show "0 < ?ws ! i" by simp
  qed
  have ordered: "\<forall>i<3. \<forall>j<3.
      count_list train_labels (int i - 1) \<le> count_list train_labels (int j - 1) \<longrightarrow>
      ?ws ! j \<le> ?ws ! i"
  proof (intro allI impI)
    fix i j :: nat
    assume i: "i < 3" and j: "j < 3"
      and le: "count_list train_labels (int i - 1) \<le> count_list train_labels (int j - 1)"
    from weight_antimono [OF cnt [OF i] le, of ?n]
    have "?w (int j - 1) \<le> ?w (int i - 1)" .
    with nth [OF i] nth [OF j] show "?ws ! j \<le> ?ws ! i" by simp
  qed
  have prep: "prepare te ve train_labels vl =
      Inr \<lparr>train_dataset = NewsDataset_init te train_labels,
           val_dataset = NewsDataset_init ve vl,
           class_weights_tensor = torch_tensor (RealVector ?ws)\<rparr>" for te ve vl
    using cw by (simp add: prepare_def Let_def)
  have indep: "map_sum id class_weights_tensor (prepare train_enc val_enc train_labels val_labels) =
      map_sum id class_weights_tensor (prepare train_enc' val_enc' train_labels val_labels')"
    by (simp add: prep)
  have shape: "?ws = [real ?n / (3 * real a), real ?n / (3 * real b), real ?n / (3 * real c)]"
    using a b c by simp
  from cw shape positive ordered prep indep show ?thesis
    by (intro exI [of _ ?ws]) simp
qed

theorem class_weight_correctness_witness:
  "set example_labels \<subseteq> {-1, 0, 1} \<and>
   count_list example_labels (-1) = 1 \<and> count_list example_labels 0 = 3 \<and>
   count_list example_labels 1 = 2 \<and>
   class_weights example_labels = Inr [2, 2 / 3, 1]"
proof -
  have h0: "set example_labels \<subseteq> {-1, 0, 1}"
    by (simp add: example_labels_def)
  have h1: "count_list example_labels (-1) = 1"
    by (simp add: example_labels_def)
  have h2: "count_list example_labels 0 = 3"
    by (simp add: example_labels_def)
  have h3: "count_list example_labels 1 = 2"
    by (simp add: example_labels_def)
  from class_weight_correctness [OF h0 h1 h2 h3, of "[]" "[]" "[]" "[]" "[]" "[]"]
  have "class_weights example_labels = Inr [2, 2 / 3, 1]"
    by auto
  with h0 h1 h2 h3 show ?thesis
    by blast
qed

section \<open>Properties of the weighted trainer\<close>

text \<open>
  Claim C6 (weighted trainer loss). For a batch that has labels and a trainer that has
  class weights, \<^verbatim>\<open>compute_loss\<close> runs the forward pass of the model and raises what
  it raises; otherwise it applies the cross-entropy to the weight tensor moved to the
  device of the model (same data), the logits of the outputs and the labels of the
  batch, raises what that raises, and returns the pair of loss and outputs when
  \<^verbatim>\<open>return_outputs\<close> is true and the loss alone when it is false.
\<close>

theorem weighted_loss_contract:
  assumes labels: "map_of inputs ''labels'' = Some y"
    and weights: "trainer_class_weights self = Some w"
  shows "(\<forall>e. forward m inputs = Inl e \<longrightarrow>
            compute_loss CrossEntropyLoss self m inputs return_outputs = Inl e) \<and>
         (\<forall>outputs. forward m inputs = Inr outputs \<longrightarrow>
            device (to w (model_device m)) = model_device m \<and>
            data (to w (model_device m)) = data w \<and>
            (\<forall>e. CrossEntropyLoss (to w (model_device m)) (map_of outputs ''logits'') (Some y) =
                   Inl e \<longrightarrow>
               compute_loss CrossEntropyLoss self m inputs return_outputs = Inl e) \<and>
            (\<forall>loss. CrossEntropyLoss (to w (model_device m)) (map_of outputs ''logits'') (Some y) =
                   Inr loss \<longrightarrow>
               compute_loss CrossEntropyLoss self m inputs True =
                 Inr (LossAndOutputs loss outputs) \<and>
               compute_loss CrossEntropyLoss self m inputs False = Inr (Loss loss)))"
  using labels weights by (simp add: compute_loss_def to_def)

theorem weighted_loss_contract_witness:
  "map_of example_batch ''labels'' = Some \<lparr>data = IntVector [1], device = CUDA\<rparr> \<and>
   trainer_class_weights example_trainer = Some (torch_tensor (RealVector [2, 1, 3])) \<and>
   forward toy_model example_batch =
     Inr [(''logits'', \<lparr>data = RealMatrix [[0, 1, 0]], device = CUDA\<rparr>)] \<and>
   compute_loss toy_loss example_trainer toy_model example_batch True =
     Inr (LossAndOutputs 6 [(''logits'', \<lparr>data = RealMatrix [[0, 1, 0]], device = CUDA\<rparr>)]) \<and>
   compute_loss toy_loss example_trainer toy_model example_batch False = Inr (Loss 6)"
proof -
  have h1: "map_of example_batch ''labels'' = Some \<lparr>data = IntVector [1], device = CUDA\<rparr>"
    by (simp add: example_batch_def)
  have h2: "trainer_class_weights example_trainer = Some (torch_tensor (RealVector [2, 1, 3]))"
    by (simp add: example_trainer_def)
  have h3: "forward toy_model example_batch =
      Inr [(''logits'', \<lparr>data = RealMatrix [[0, 1, 0]], device = CUDA\<rparr>)]"
    by (simp add: toy_model_def toy_forward_def example_batch_def)
  have h4: "toy_loss (to (torch_tensor (RealVector [2, 1, 3])) (model_device toy_model))
      (map_of [(''logits'', \<lparr>data = RealMatrix [[0, 1, 0]], device = CUDA\<rparr>)] ''logits'')
      (Some \<lparr>data = IntVector [1], device = CUDA\<rparr>) = Inr 6"
    by (simp add: toy_loss_def to_def torch_tensor_def toy_model_def)
  note t = weighted_loss_contract [OF h1 h2, of toy_model toy_loss]
  from t h3 h4 have
    "compute_loss toy_loss example_trainer toy_model example_batch True =
       Inr (LossAndOutputs 6 [(''logits'', \<lparr>data = RealMatrix [[0, 1, 0]], device = CUDA\<rparr>)]) \<and>
     compute_loss toy_loss example_trainer toy_model example_batch False = Inr (Loss 6)"
    by blast
  with h1 h2 h3 show ?thesis
    by blast
qed

section \<open>Properties of the checkpoint loader\<close>

text \<open>
  Claim C7 (checkpoint loader). If the checkpoint path exists, \<^verbatim>\<open>from_pretrained\<close>
  returns the model \<open>m\<close> for it, and the directory holds a file \<^verbatim>\<open>rng_state.pth\<close> that
  loading does not touch, then the loader returns \<open>m\<close>, the file is gone afterwards and
  no other path is changed by the removal. If the path does not exist, the loader is
  \<^verbatim>\<open>from_pretrained\<close> of the base model with \<^verbatim>\<open>num_labels=3\<close>.
\<close>

theorem checkpoint_loader_post_state:
  "(p \<noteq> [] \<and> os_path_exists w p \<and> from_pretrained w p None = (Inr m, w1) \<and>
    files w (os_path_join p ''rng_state.pth'') = Some (File b) \<and>
    files w1 (os_path_join p ''rng_state.pth'') = files w (os_path_join p ''rng_state.pth'') \<longrightarrow>
      fst (load_model from_pretrained (Some p) w) = Inr m \<and>
      \<not> os_path_exists (snd (load_model from_pretrained (Some p) w))
          (os_path_join p ''rng_state.pth'') \<and>
      (\<forall>q. q \<noteq> os_path_join p ''rng_state.pth'' \<longrightarrow>
         files (snd (load_model from_pretrained (Some p) w)) q = files w1 q)) \<and>
   (\<not> os_path_exists w p \<longrightarrow>
      load_model from_pretrained (Some p) w = from_pretrained w base_model (Some 3))"
proof (intro conjI impI)
  assume h: "p \<noteq> [] \<and> os_path_exists w p \<and> from_pretrained w p None = (Inr m, w1) \<and>
    files w (os_path_join p ''rng_state.pth'') = Some (File b) \<and>
    files w1 (os_path_join p ''rng_state.pth'') = files w (os_path_join p ''rng_state.pth'')"
  let ?rng = "os_path_join p ''rng_state.pth''"
  from h have ne: "p \<noteq> []" and ex: "os_path_exists w p"
    and loaded: "from_pretrained w p None = (Inr m, w1)"
    by blast+
  from h have rng: "files w1 ?rng = Some (File b)"
    by simp
  then have ex_rng: "os_path_exists w1 ?rng"
    by (simp add: os_path_exists_def)
  from rng have rm: "os_remove w1 ?rng = Inr (w1\<lparr>files := (files w1)(?rng := None)\<rparr>)"
    by (simp add: os_remove_def)
  have run: "load_model from_pretrained (Some p) w =
      (Inr m, w1\<lparr>files := (files w1)(?rng := None)\<rparr>)"
    unfolding load_model_def Let_def
    by (simp only: ne ex loaded ex_rng rm option.case prod.case sum.case if_True simp_thms)
  show "fst (load_model from_pretrained (Some p) w) = Inr m"
    by (simp add: run)
  show "\<not> os_path_exists (snd (load_model from_pretrained (Some p) w)) ?rng"
    by (simp add: run os_path_exists_def)
  show "\<forall>q. q \<noteq> ?rng \<longrightarrow> files (snd (load_model from_pretrained (Some p) w)) q = files w1 q"
    by (simp add: run)
next
  assume "\<not> os_path_exists w p"
  then show "load_model from_pretrained (Some p) w = from_pretrained w base_model (Some 3)"
    by (simp add: load_model_def)
qed

theorem checkpoint_loader_post_state_witness:
  "os_path_exists checkpoint_world ''ckpt'' \<and>
   toy_from_pretrained checkpoint_world ''ckpt'' None =
     (Inr \<lparr>weights = [7, 7], num_labels = None\<rparr>, checkpoint_world) \<and>
   files checkpoint_world (os_path_join ''ckpt'' ''rng_state.pth'') = Some (File [9]) \<and>
   fst (load_model toy_from_pretrained (Some ''ckpt'') checkpoint_world) =
     Inr \<lparr>weights = [7, 7], num_labels = None\<rparr> \<and>
   \<not> os_path_exists (snd (load_model toy_from_pretrained (Some ''ckpt'') checkpoint_world))
       (os_path_join ''ckpt'' ''rng_state.pth'') \<and>
   \<not> os_path_exists checkpoint_world ''./results_phase2/checkpoint-9580'' \<and>
   load_model toy_from_pretrained checkpoint_path checkpoint_world =
     (Inr \<lparr>weights = [0], num_labels = Some 3\<rparr>, checkpoint_world)"
proof -
  have j: "os_path_join ''ckpt'' ''rng_state.pth'' = ''ckpt/rng_state.pth''"
    by (simp add: os_path_join_def)
  have h1: "os_path_exists checkpoint_world ''ckpt''"
    by (simp add: os_path_exists_def checkpoint_world_def)
  have h2: "toy_from_pretrained checkpoint_world ''ckpt'' None =
     (Inr \<lparr>weights = [7, 7], num_labels = None\<rparr>, checkpoint_world)"
    by (simp add: toy_from_pretrained_def base_model_def os_path_join_def checkpoint_world_def)
  have h3: "files checkpoint_world (os_path_join ''ckpt'' ''rng_state.pth'') = Some (File [9])"
    by (simp add: j checkpoint_world_def)
  have h4: "\<not> os_path_exists checkpoint_world ''./results_phase2/checkpoint-9580''"
    by (simp add: os_path_exists_def checkpoint_world_def)
  have h5: "toy_from_pretrained checkpoint_world base_model (Some 3) =
     (Inr \<lparr>weights = [0], num_labels = Some 3\<rparr>, checkpoint_world)"
    by (simp add: toy_from_pretrained_def)
  note t1 = checkpoint_loader_post_state [of "''ckpt''" checkpoint_world toy_from_pretrained
      "\<lparr>weights = [7, 7], num_labels = None\<rparr>" checkpoint_world "[9]"]
  note t2 = checkpoint_loader_post_state [of "''./results_phase2/checkpoint-9580''"
      checkpoint_world toy_from_pretrained]
  from t1 h1 h2 h3 have a:
    "fst (load_model toy_from_pretrained (Some ''ckpt'') checkpoint_world) =
       Inr \<lparr>weights = [7, 7], num_labels = None\<rparr> \<and>
     \<not> os_path_exists (snd (load_model toy_from_pretrained (Some ''ckpt'') checkpoint_world))
       (os_path_join ''ckpt'' ''rng_state.pth'')"
    by simp
  from t2 h4 h5 have b: "load_model toy_from_pretrained checkpoint_path checkpoint_world =
     (Inr \<lparr>weights = [0], num_labels = Some 3\<rparr>, checkpoint_world)"
    by (simp add: checkpoint_path_def)
  from h1 h2 h3 h4 a b show ?thesis
    by blast
qed

end
